theory Spec2Isabelle
  imports Main "HOL-Library.Word" "HOL-Library.Signed_Division" "HOL-Library.Multiset"
begin

section \<open>The shelve commands of the command-line client (shelve-cmd.c)\<close>

text \<open>
  A shallow embedding of \<^verbatim>\<open>subversion/svn/shelve-cmd.c\<close>. Every function of the file
  is a HOL function of the same name. The collaborators the file calls but does not
  define (the shelf store, the argument parsers, the output channel, the clock) are the
  fields of the record \<open>externals\<close>, so that every statement below holds for each
  behaviour they may have. A function returning \<^verbatim>\<open>svn_error_t *\<close> returns an
  \<open>svn_error_t option\<close> (\<open>None\<close> is \<^verbatim>\<open>SVN_NO_ERROR\<close>), or a sum when it also has
  an out-parameter; \<^verbatim>\<open>SVN_ERR\<close> is the early return on the error branch. What a
  function does besides returning (calls into the store, printed lines, the shell
  command) is the list of events it returns, in order.
\<close>

subsection \<open>Data\<close>

type_synonym apr_time_t = "64 word" \<comment> \<open>\<^verbatim>\<open>apr_int64_t\<close>, microseconds; compared signed\<close>
type_synonym apr_size_t = "64 word" \<comment> \<open>unsigned, 64 bits wide on an LP64 platform\<close>
type_synonym svn_filesize_t = "64 word"

text \<open>The two error codes the file raises itself, and any other code a collaborator returns.\<close>

datatype apr_status_t =
    SVN_ERR_CL_ARG_PARSING_ERROR
  | SVN_ERR_CL_INSUFFICIENT_ARGS
  | APR_OTHER_STATUS nat

record svn_error_t =
  apr_err :: apr_status_t
  err_message :: "string option" \<comment> \<open>\<^verbatim>\<open>message\<close>; \<open>None\<close> is \<^verbatim>\<open>NULL\<close>\<close>

text \<open>\<^verbatim>\<open>svn_error_create(apr_err, child, message)\<close>; the child is \<^verbatim>\<open>NULL\<close> at every call here.\<close>

definition svn_error_create :: "apr_status_t \<Rightarrow> string option \<Rightarrow> svn_error_t" where
  "svn_error_create code msg = \<lparr>apr_err = code, err_message = msg\<rparr>"

text \<open>The message catalogue macro \<^verbatim>\<open>_()\<close>: the message itself when no translation is installed.\<close>

definition gettext_msg :: "string \<Rightarrow> string" where
  "gettext_msg msgid = msgid"

record svn_io_dirent2_t =
  filesize :: svn_filesize_t
  mtime :: apr_time_t

record svn_client_shelved_patch_info_t =
  message :: string
  patch_path :: string
  dirent :: svn_io_dirent2_t
  info_mtime :: apr_time_t \<comment> \<open>the field \<^verbatim>\<open>mtime\<close> of the info itself\<close>

record svn_sort__item_t =
  key :: string
  val :: svn_client_shelved_patch_info_t \<comment> \<open>\<^verbatim>\<open>value\<close>\<close>

text \<open>
  An \<^verbatim>\<open>apr_hash_t\<close> from shelf file name to patch info: its entries, in the order the
  hash table iterates over them (an order the table does not promise).
\<close>

type_synonym apr_hash_t = "(string \<times> svn_client_shelved_patch_info_t) list"

datatype svn_depth_t =
    svn_depth_unknown
  | svn_depth_exclude
  | svn_depth_empty
  | svn_depth_files
  | svn_depth_immediates
  | svn_depth_infinity

text \<open>The client context: two callback slots (\<open>None\<close> is \<^verbatim>\<open>NULL\<close>), a baton and the configuration.\<close>

record svn_client_ctx_t =
  notify_func2 :: "nat option"
  log_msg_func3 :: "nat option"
  log_msg_baton3 :: "nat option"
  config :: nat

text \<open>The fields of the option state that the file reads.\<close>

record svn_cl__opt_state_t =
  quiet :: bool
  list_opt :: bool \<comment> \<open>\<^verbatim>\<open>list\<close>\<close>
  remove :: bool
  dry_run :: bool
  keep_local :: bool
  depth :: svn_depth_t
  targets :: "string list"
  changelists :: "string list"

text \<open>The option parser's position: \<^verbatim>\<open>argc\<close> is the length of \<^verbatim>\<open>argv\<close>.\<close>

record apr_getopt_t =
  argv :: "string list"
  ind :: nat

definition argc :: "apr_getopt_t \<Rightarrow> nat" where
  "argc os = length (argv os)"

datatype printf_arg = Arg_str string | Arg_int "32 word" | Arg_long "64 word"

text \<open>
  What a command does besides returning: each call into the shelf store with its
  arguments, each line written with \<^verbatim>\<open>printf\<close> (format and arguments), each line
  handed to \<^verbatim>\<open>svn_cmdline_printf\<close>, and each shell command run with \<^verbatim>\<open>system\<close>.
\<close>

datatype event =
    Call_shelves_list string svn_client_ctx_t
  | Call_shelves_delete string string bool svn_client_ctx_t
  | Call_shelve string "string list" svn_depth_t "string list" bool bool svn_client_ctx_t
  | Call_unshelve string string bool bool svn_client_ctx_t
  | Printf string "printf_arg list"
  | Cmdline_printf string "printf_arg list"
  | System string

subsection \<open>Collaborators\<close>

text \<open>
  The functions the file calls and other parts of the client and its libraries define.
  The pool arguments are left out. \<open>apr_time_now i\<close> is the clock as read in the
  \<open>i\<close>-th round of the listing loop.
\<close>

record externals =
  svn_dirent_get_absolute :: "string \<Rightarrow> svn_error_t + string"
  svn_utf_cstring_to_utf8 :: "string \<Rightarrow> svn_error_t + string"
  svn_cl__args_to_target_array_print_reserved ::
    "string list \<Rightarrow> string list \<Rightarrow> svn_client_ctx_t \<Rightarrow> bool \<Rightarrow> svn_error_t + string list"
  svn_cl__check_targets_are_local_paths :: "string list \<Rightarrow> svn_error_t option"
  svn_cl__eat_peg_revisions :: "string list \<Rightarrow> svn_error_t + string list"
  svn_cl__make_log_msg_baton :: "svn_cl__opt_state_t \<Rightarrow> nat \<Rightarrow> svn_error_t + nat"
  svn_cl__cleanup_log_msg :: "nat option \<Rightarrow> svn_error_t option \<Rightarrow> svn_error_t option"
  svn_cmdline_printf :: "string \<Rightarrow> printf_arg list \<Rightarrow> svn_error_t option"
  svn_client_shelves_list :: "string \<Rightarrow> svn_client_ctx_t \<Rightarrow> svn_error_t + apr_hash_t"
  svn_client_shelves_delete ::
    "string \<Rightarrow> string \<Rightarrow> bool \<Rightarrow> svn_client_ctx_t \<Rightarrow> svn_error_t option"
  svn_client_shelve ::
    "string \<Rightarrow> string list \<Rightarrow> svn_depth_t \<Rightarrow> string list \<Rightarrow> bool \<Rightarrow> bool
      \<Rightarrow> svn_client_ctx_t \<Rightarrow> svn_error_t option"
  svn_client_unshelve ::
    "string \<Rightarrow> string \<Rightarrow> bool \<Rightarrow> bool \<Rightarrow> svn_client_ctx_t \<Rightarrow> svn_error_t option"
  apr_time_now :: "nat \<Rightarrow> apr_time_t"

subsection \<open>Library routines with a fixed meaning\<close>

text \<open>\<^verbatim>\<open>strlen\<close>: the length as an \<^verbatim>\<open>apr_size_t\<close>.\<close>

definition strlen :: "string \<Rightarrow> apr_size_t" where
  "strlen s = word_of_nat (length s)"

text \<open>
  \<^verbatim>\<open>apr_pstrndup(pool, s, n)\<close> of the portable runtime: a copy of at most \<open>n\<close>
  characters of \<open>s\<close>, the whole of \<open>s\<close> when it is shorter than \<open>n\<close>.
\<close>

definition apr_pstrndup :: "string \<Rightarrow> apr_size_t \<Rightarrow> string" where
  "apr_pstrndup s n = take (unat n) s"

definition apr_hash_count :: "apr_hash_t \<Rightarrow> nat" where
  "apr_hash_count ht = length ht"

text \<open>
  Modelled from the spec: \<^verbatim>\<open>svn_sort__hash\<close> (libsvn_subr/sorts.c) is not under src/.
  The spec has the lister impose its order by "a single explicit sort step", "a stable
  sort over explicit (name, record) pairs", ascending under the comparison function it
  is given. The model copies the entries of the table into items and sorts them by
  stable insertion, asking only the comparison function.
\<close>

fun sort_insert ::
  "(svn_sort__item_t \<Rightarrow> svn_sort__item_t \<Rightarrow> int) \<Rightarrow> svn_sort__item_t
    \<Rightarrow> svn_sort__item_t list \<Rightarrow> svn_sort__item_t list" where
  "sort_insert comparison_func x [] = [x]"
| "sort_insert comparison_func x (y # ys) =
     (if comparison_func x y \<le> 0 then x # y # ys
      else y # sort_insert comparison_func x ys)"

definition hash_items :: "apr_hash_t \<Rightarrow> svn_sort__item_t list" where
  "hash_items ht = map (\<lambda>(k, v). \<lparr>key = k, val = v\<rparr>) ht"

definition svn_sort__hash ::
  "apr_hash_t \<Rightarrow> (svn_sort__item_t \<Rightarrow> svn_sort__item_t \<Rightarrow> int) \<Rightarrow> svn_sort__item_t list" where
  "svn_sort__hash ht comparison_func = foldr (sort_insert comparison_func) (hash_items ht) []"

text \<open>
  Modelled from the spec: \<^verbatim>\<open>svn_opt_parse_num_args\<close> (libsvn_subr/opt.c) is not under
  src/. The spec has the command "consume exactly one positional argument as the shelf
  name (fails if zero ... are present)": the next \<open>num_args\<close> arguments are taken and
  the position moves past them, and too few arguments left is an error.
\<close>

definition svn_opt_parse_num_args ::
  "apr_getopt_t \<Rightarrow> nat \<Rightarrow> (svn_error_t + string list) \<times> apr_getopt_t" where
  "svn_opt_parse_num_args os num_args =
     (if argc os < ind os + num_args
      then (Inl (svn_error_create SVN_ERR_CL_INSUFFICIENT_ARGS None), os)
      else (Inr (take num_args (drop (ind os) (argv os))), os\<lparr>ind := ind os + num_args\<rparr>))"

text \<open>
  Modelled from the spec: \<^verbatim>\<open>svn_opt_push_implicit_dot_target\<close> (libsvn_subr/opt.c) is
  not under src/. It is the "implicit current directory default" that, in the spec's
  words, most other commands of the family have: when no target was given, the current
  directory becomes the only target (as the canonical, empty path); given targets are
  left as they are.
\<close>

definition svn_opt_push_implicit_dot_target :: "string list \<Rightarrow> string list" where
  "svn_opt_push_implicit_dot_target tgts = (if length tgts = 0 then tgts @ [''''] else tgts)"

subsection \<open>The functions of the file\<close>

text \<open>\<^verbatim>\<open>get_name\<close>: the first argument is the name of a shelved change.\<close>

definition get_name :: "externals \<Rightarrow> apr_getopt_t \<Rightarrow> (svn_error_t + string) \<times> apr_getopt_t" where
  "get_name ext os =
     (case svn_opt_parse_num_args os 1 of
        (Inl err, os') \<Rightarrow> (Inl err, os')
      | (Inr args, os') \<Rightarrow> (svn_utf_cstring_to_utf8 ext (args ! 0), os'))"

definition compare_dirents_by_mtime :: "svn_sort__item_t \<Rightarrow> svn_sort__item_t \<Rightarrow> int" where
  "compare_dirents_by_mtime a b =
     (let a_val = val a; b_val = val b
      in if mtime (dirent a_val) <s mtime (dirent b_val) then - 1
         else if mtime (dirent b_val) <s mtime (dirent a_val) then 1 else 0)"

text \<open>\<^verbatim>\<open>list_sorted_by_date\<close>: the shelved changes sorted by patch file mtime, oldest first.\<close>

definition list_sorted_by_date ::
  "externals \<Rightarrow> string \<Rightarrow> svn_client_ctx_t \<Rightarrow> (svn_error_t + svn_sort__item_t list) \<times> event list" where
  "list_sorted_by_date ext local_abspath ctx =
     (case svn_client_shelves_list ext local_abspath ctx of
        Inl err \<Rightarrow> (Inl err, [Call_shelves_list local_abspath ctx])
      | Inr shelved_patch_infos \<Rightarrow>
          (Inr (svn_sort__hash shelved_patch_infos compare_dirents_by_mtime),
           [Call_shelves_list local_abspath ctx]))"

text \<open>
  The body of the loop of \<^verbatim>\<open>shelves_list\<close>, from round \<open>i\<close> on. The age is a signed
  64-bit difference divided twice, rounding towards zero, and narrowed to an \<^verbatim>\<open>int\<close>.
\<close>

fun shelves_list_loop :: "externals \<Rightarrow> bool \<Rightarrow> nat \<Rightarrow> svn_sort__item_t list \<Rightarrow> event list" where
  "shelves_list_loop ext diffstat i [] = []"
| "shelves_list_loop ext diffstat i (item # rest) =
     (let name = key item;
          info = val item;
          age = (word_of_int ((sint (apr_time_now ext i - info_mtime info) sdiv 1000000) sdiv 60)
                  :: 32 word)
      in [Printf ''%-30s %6d mins old %10ld bytes\<newline>''
            [Arg_str name, Arg_int age, Arg_long (filesize (dirent info))],
          Printf '' %.50s\<newline>'' [Arg_str (message info)]]
         @ (if diffstat
            then [System (''diffstat '' @ patch_path info @ '' 2> /dev/null''),
                  Printf ''\<newline>'' []]
            else [])
         @ shelves_list_loop ext diffstat (Suc i) rest)"

definition shelves_list ::
  "externals \<Rightarrow> string \<Rightarrow> bool \<Rightarrow> svn_client_ctx_t \<Rightarrow> svn_error_t option \<times> event list" where
  "shelves_list ext local_abspath diffstat ctx =
     (case list_sorted_by_date ext local_abspath ctx of
        (Inl err, evs) \<Rightarrow> (Some err, evs)
      | (Inr lst, evs) \<Rightarrow> (None, evs @ shelves_list_loop ext diffstat 0 lst))"

text \<open>\<^verbatim>\<open>name_of_youngest\<close>: the name of the youngest shelved change.\<close>

definition name_of_youngest ::
  "externals \<Rightarrow> string \<Rightarrow> svn_client_ctx_t \<Rightarrow> (svn_error_t + string) \<times> event list" where
  "name_of_youngest ext local_abspath ctx =
     (case svn_client_shelves_list ext local_abspath ctx of
        Inl err \<Rightarrow> (Inl err, [Call_shelves_list local_abspath ctx])
      | Inr dirents \<Rightarrow>
          if apr_hash_count dirents = 0
          then (Inl (svn_error_create SVN_ERR_CL_INSUFFICIENT_ARGS
                       (Some (gettext_msg ''No shelved changes found''))),
                [Call_shelves_list local_abspath ctx])
          else
            let lst = svn_sort__hash dirents compare_dirents_by_mtime;
                youngest_item = lst ! (length lst - 1)
            in (Inr (apr_pstrndup (key youngest_item) (strlen (key youngest_item) - 6)),
                [Call_shelves_list local_abspath ctx]))"

text \<open>
  \<^verbatim>\<open>svn_cl__shelve\<close>. The context is changed in place when the quiet option is set
  (and when a log message baton is made); the changed context is what the later calls
  receive.
\<close>

definition svn_cl__shelve ::
  "externals \<Rightarrow> apr_getopt_t \<Rightarrow> svn_cl__opt_state_t \<Rightarrow> svn_client_ctx_t
    \<Rightarrow> svn_error_t option \<times> event list" where
  "svn_cl__shelve ext os opt_state ctx0 =
     (let ctx = (if quiet opt_state then ctx0\<lparr>notify_func2 := None\<rparr> else ctx0)
      in case svn_dirent_get_absolute ext '''' of
           Inl err \<Rightarrow> (Some err, [])
         | Inr local_abspath \<Rightarrow>
             if list_opt opt_state
             then (if ind os < argc os
                   then (Some (svn_error_create SVN_ERR_CL_ARG_PARSING_ERROR None), [])
                   else shelves_list ext local_abspath (\<not> quiet opt_state) ctx)
             else
               (case get_name ext os of
                  (Inl err, os1) \<Rightarrow> (Some err, [])
                | (Inr name, os1) \<Rightarrow>
                    if remove opt_state
                    then (if ind os1 < argc os1
                          then (Some (svn_error_create SVN_ERR_CL_ARG_PARSING_ERROR None), [])
                          else
                            (case svn_client_shelves_delete ext name local_abspath
                                    (dry_run opt_state) ctx of
                               Some err \<Rightarrow>
                                 (Some err,
                                  [Call_shelves_delete name local_abspath (dry_run opt_state) ctx])
                             | None \<Rightarrow>
                                 if \<not> quiet opt_state
                                 then (svn_cmdline_printf ext ''deleted '%s'\<newline>'' [Arg_str name],
                                       [Call_shelves_delete name local_abspath (dry_run opt_state) ctx,
                                        Cmdline_printf ''deleted '%s'\<newline>'' [Arg_str name]])
                                 else (None,
                                       [Call_shelves_delete name local_abspath
                                          (dry_run opt_state) ctx])))
                    else
                      (case svn_cl__args_to_target_array_print_reserved ext
                              (drop (ind os1) (argv os1)) (targets opt_state) ctx False of
                         Inl err \<Rightarrow> (Some err, [])
                       | Inr targets0 \<Rightarrow>
                           let targets1 = svn_opt_push_implicit_dot_target targets0;
                               depth0 = depth opt_state
                           in if length targets1 = 0
                              then (Some (svn_error_create SVN_ERR_CL_INSUFFICIENT_ARGS None), [])
                              else
                                (case svn_cl__check_targets_are_local_paths ext targets1 of
                                   Some err \<Rightarrow> (Some err, [])
                                 | None \<Rightarrow>
                                     let depth1 = (if depth0 = svn_depth_unknown
                                                   then svn_depth_infinity else depth0)
                                     in case svn_cl__eat_peg_revisions ext targets1 of
                                          Inl err \<Rightarrow> (Some err, [])
                                        | Inr targets2 \<Rightarrow>
                                            (case (if log_msg_func3 ctx \<noteq> None
                                                   then (case svn_cl__make_log_msg_baton ext
                                                                opt_state (config ctx) of
                                                           Inl err \<Rightarrow> Inl err
                                                         | Inr baton \<Rightarrow>
                                                             Inr (ctx\<lparr>log_msg_baton3 := Some baton\<rparr>))
                                                   else Inr ctx) of
                                               Inl err \<Rightarrow> (Some err, [])
                                             | Inr ctx1 \<Rightarrow>
                                                 let err = svn_client_shelve ext name targets2 depth1
                                                             (changelists opt_state)
                                                             (keep_local opt_state)
                                                             (dry_run opt_state) ctx1;
                                                     called = Call_shelve name targets2 depth1
                                                                (changelists opt_state)
                                                                (keep_local opt_state)
                                                                (dry_run opt_state) ctx1
                                                 in case (if log_msg_func3 ctx1 \<noteq> None
                                                          then svn_cl__cleanup_log_msg ext
                                                                 (log_msg_baton3 ctx1) err
                                                          else err) of
                                                      Some err' \<Rightarrow> (Some err', [called])
                                                    | None \<Rightarrow>
                                                        if \<not> quiet opt_state
                                                        then (svn_cmdline_printf ext
                                                                ''shelved '%s'\<newline>'' [Arg_str name],
                                                              [called,
                                                               Cmdline_printf ''shelved '%s'\<newline>''
                                                                 [Arg_str name]])
                                                        else (None, [called]))))))"

text \<open>\<^verbatim>\<open>svn_cl__unshelve\<close>.\<close>

definition svn_cl__unshelve ::
  "externals \<Rightarrow> apr_getopt_t \<Rightarrow> svn_cl__opt_state_t \<Rightarrow> svn_client_ctx_t
    \<Rightarrow> svn_error_t option \<times> event list" where
  "svn_cl__unshelve ext os opt_state ctx =
     (case svn_dirent_get_absolute ext '''' of
        Inl err \<Rightarrow> (Some err, [])
      | Inr local_abspath \<Rightarrow>
          if list_opt opt_state
          then (if ind os < argc os
                then (Some (svn_error_create SVN_ERR_CL_ARG_PARSING_ERROR None), [])
                else shelves_list ext local_abspath (\<not> quiet opt_state) ctx)
          else
            (case (if ind os < argc os
                   then (case get_name ext os of (r, os1) \<Rightarrow> (r, os1, []))
                   else (case name_of_youngest ext local_abspath ctx of
                           (Inl err, evs) \<Rightarrow> (Inl err, os, evs)
                         | (Inr name, evs) \<Rightarrow>
                             (Inr name, os,
                              evs @ [Printf ''unshelving the youngest change, '%s'\<newline>''
                                       [Arg_str name]]))) of
               (Inl err, os1, evs) \<Rightarrow> (Some err, evs)
             | (Inr name, os1, evs) \<Rightarrow>
                 (case svn_cl__args_to_target_array_print_reserved ext
                         (drop (ind os1) (argv os1)) (targets opt_state) ctx False of
                    Inl err \<Rightarrow> (Some err, evs)
                  | Inr tgts \<Rightarrow>
                      if length tgts \<noteq> 0
                      then (Some (svn_error_create SVN_ERR_CL_ARG_PARSING_ERROR None), evs)
                      else
                        let ctx1 = (if quiet opt_state then ctx\<lparr>notify_func2 := None\<rparr> else ctx);
                            called = Call_unshelve name local_abspath (keep_local opt_state)
                                       (dry_run opt_state) ctx1
                        in case svn_client_unshelve ext name local_abspath (keep_local opt_state)
                                  (dry_run opt_state) ctx1 of
                             Some err \<Rightarrow> (Some err, evs @ [called])
                           | None \<Rightarrow>
                               if \<not> quiet opt_state
                               then (svn_cmdline_printf ext ''unshelved '%s'\<newline>'' [Arg_str name],
                                     evs @ [called,
                                            Cmdline_printf ''unshelved '%s'\<newline>'' [Arg_str name]])
                               else (None, evs @ [called]))))"

text \<open>\<^verbatim>\<open>svn_cl__shelves\<close>.\<close>

definition svn_cl__shelves ::
  "externals \<Rightarrow> apr_getopt_t \<Rightarrow> svn_client_ctx_t \<Rightarrow> svn_error_t option \<times> event list" where
  "svn_cl__shelves ext os ctx =
     (if ind os < argc os
      then (Some (svn_error_create SVN_ERR_CL_ARG_PARSING_ERROR None), [])
      else case svn_dirent_get_absolute ext '''' of
             Inl err \<Rightarrow> (Some err, [])
           | Inr local_abspath \<Rightarrow> shelves_list ext local_abspath True ctx)"

subsection \<open>Reading a list of events\<close>

text \<open>The calls into the shelf store among the events.\<close>

fun is_store_call :: "event \<Rightarrow> bool" where
  "is_store_call (Call_shelves_list _ _) = True"
| "is_store_call (Call_shelves_delete _ _ _ _) = True"
| "is_store_call (Call_shelve _ _ _ _ _ _ _) = True"
| "is_store_call (Call_unshelve _ _ _ _ _) = True"
| "is_store_call _ = False"

text \<open>The ordering key of an item: the signed value of the mtime of its patch file.\<close>

definition item_mtime :: "svn_sort__item_t \<Rightarrow> int" where
  "item_mtime item = sint (mtime (dirent (val item)))"

subsection \<open>A working copy for the examples\<close>

text \<open>
  A store holding the table \<open>ht\<close> in which every operation succeeds, with a root that
  resolves, arguments that are valid text and become the targets as they are, and an
  output channel that accepts every line.
\<close>

definition working_externals :: "apr_hash_t \<Rightarrow> externals" where
  "working_externals ht =
     \<lparr>svn_dirent_get_absolute = (\<lambda>path. Inr ''/wc''),
      svn_utf_cstring_to_utf8 = (\<lambda>s. Inr s),
      svn_cl__args_to_target_array_print_reserved = (\<lambda>args known ctx keep. Inr (known @ args)),
      svn_cl__check_targets_are_local_paths = (\<lambda>tgts. None),
      svn_cl__eat_peg_revisions = (\<lambda>tgts. Inr tgts),
      svn_cl__make_log_msg_baton = (\<lambda>opt_state cfg. Inr 0),
      svn_cl__cleanup_log_msg = (\<lambda>baton err. err),
      svn_cmdline_printf = (\<lambda>fmt args. None),
      svn_client_shelves_list = (\<lambda>local_abspath ctx. Inr ht),
      svn_client_shelves_delete = (\<lambda>name local_abspath dry ctx. None),
      svn_client_shelve = (\<lambda>name tgts dpth cls keep dry ctx. None),
      svn_client_unshelve = (\<lambda>name local_abspath keep dry ctx. None),
      apr_time_now = (\<lambda>i. 0)\<rparr>"

definition shelved_at :: "apr_time_t \<Rightarrow> svn_client_shelved_patch_info_t" where
  "shelved_at t =
     \<lparr>message = ''wip'', patch_path = ''/wc/.svn/shelves/x.patch'',
      dirent = \<lparr>filesize = 10, mtime = t\<rparr>, info_mtime = t\<rparr>"

definition plain_ctx :: svn_client_ctx_t where
  "plain_ctx = \<lparr>notify_func2 = Some 1, log_msg_func3 = None, log_msg_baton3 = None, config = 0\<rparr>"

definition plain_options :: svn_cl__opt_state_t where
  "plain_options =
     \<lparr>quiet = False, list_opt = False, remove = False, dry_run = False, keep_local = False,
      depth = svn_depth_unknown, targets = [], changelists = []\<rparr>"

text \<open>
  The same store with an output channel that is closed: every line handed to
  \<^verbatim>\<open>svn_cmdline_printf\<close> is refused with a write error.
\<close>

definition closed_output_externals :: "apr_hash_t \<Rightarrow> externals" where
  "closed_output_externals ht =
     (working_externals ht)
       \<lparr>svn_cmdline_printf :=
          (\<lambda>fmt args. Some (svn_error_create (APR_OTHER_STATUS 32) (Some ''Write error'')))\<rparr>"



subsection \<open>Comparing a quiet run with a normal run\<close>

text \<open>An event with the notification callback of its context set to \<^verbatim>\<open>NULL\<close>.\<close>

fun erase_notify :: "event \<Rightarrow> event" where
  "erase_notify (Call_shelves_list p ctx) = Call_shelves_list p (ctx\<lparr>notify_func2 := None\<rparr>)"
| "erase_notify (Call_shelves_delete n p d ctx) =
     Call_shelves_delete n p d (ctx\<lparr>notify_func2 := None\<rparr>)"
| "erase_notify (Call_shelve n ts dp cls k d ctx) =
     Call_shelve n ts dp cls k d (ctx\<lparr>notify_func2 := None\<rparr>)"
| "erase_notify (Call_unshelve n p k d ctx) = Call_unshelve n p k d (ctx\<lparr>notify_func2 := None\<rparr>)"
| "erase_notify e = e"

text \<open>The calls into the store, in order, whatever the notification callback was.\<close>

definition store_calls :: "event list \<Rightarrow> event list" where
  "store_calls evs = map erase_notify (filter is_store_call evs)"

text \<open>
  The output the quiet option is there to suppress: the confirmation lines, the
  diffstat command of the listing, and the blank line after it.
\<close>

fun quiet_suppresses :: "event \<Rightarrow> bool" where
  "quiet_suppresses (Cmdline_printf fmt args) = True"
| "quiet_suppresses (System cmd) = True"
| "quiet_suppresses (Printf fmt args) = (fmt = ''\<newline>'' \<and> args = [])"
| "quiet_suppresses e = False"

definition quiet_view :: "event list \<Rightarrow> event list" where
  "quiet_view evs = map erase_notify (filter (\<lambda>e. \<not> quiet_suppresses e) evs)"

text \<open>
  What the commands rely on in their collaborators: a collaborator that is handed the
  context returns the same result whether or not a notification callback is installed
  in it, and the log message baton does not depend on the quiet option.
\<close>

definition quiet_blind :: "externals \<Rightarrow> bool" where
  "quiet_blind ext \<longleftrightarrow>
     (\<forall>p ctx. svn_client_shelves_list ext p (ctx\<lparr>notify_func2 := None\<rparr>)
               = svn_client_shelves_list ext p ctx)
     \<and> (\<forall>n p d ctx. svn_client_shelves_delete ext n p d (ctx\<lparr>notify_func2 := None\<rparr>)
                     = svn_client_shelves_delete ext n p d ctx)
     \<and> (\<forall>n ts dp cls k d ctx. svn_client_shelve ext n ts dp cls k d (ctx\<lparr>notify_func2 := None\<rparr>)
                     = svn_client_shelve ext n ts dp cls k d ctx)
     \<and> (\<forall>n p k d ctx. svn_client_unshelve ext n p k d (ctx\<lparr>notify_func2 := None\<rparr>)
                     = svn_client_unshelve ext n p k d ctx)
     \<and> (\<forall>args known ctx keep.
           svn_cl__args_to_target_array_print_reserved ext args known (ctx\<lparr>notify_func2 := None\<rparr>) keep
             = svn_cl__args_to_target_array_print_reserved ext args known ctx keep)
     \<and> (\<forall>opt_state q cfg. svn_cl__make_log_msg_baton ext (opt_state\<lparr>quiet := q\<rparr>) cfg
                             = svn_cl__make_log_msg_baton ext opt_state cfg)"

section \<open>Properties\<close>

subsection \<open>The comparison function and the sort\<close>

lemma compare_dirents_by_mtime_le:
  "compare_dirents_by_mtime a b \<le> 0 \<longleftrightarrow> item_mtime a \<le> item_mtime b"
  by (auto simp: compare_dirents_by_mtime_def item_mtime_def Let_def word_sless_alt)

lemma compare_dirents_by_mtime_less:
  "compare_dirents_by_mtime a b < 0 \<longleftrightarrow> item_mtime a < item_mtime b"
  by (auto simp: compare_dirents_by_mtime_def item_mtime_def Let_def word_sless_alt)

lemma compare_dirents_by_mtime_eq:
  "compare_dirents_by_mtime a b = 0 \<longleftrightarrow> item_mtime a = item_mtime b"
  by (auto simp: compare_dirents_by_mtime_def item_mtime_def Let_def word_sless_alt)

lemma mset_sort_insert: "mset (sort_insert c x ys) = add_mset x (mset ys)"
  by (induction ys) simp_all

lemma set_sort_insert: "set (sort_insert c x ys) = insert x (set ys)"
  by (induction ys) auto

lemma mset_svn_sort__hash: "mset (svn_sort__hash ht c) = mset (hash_items ht)"
proof -
  have "mset (foldr (sort_insert c) xs []) = mset xs" for xs
    by (induction xs) (simp_all add: mset_sort_insert)
  then show ?thesis by (simp add: svn_sort__hash_def)
qed

lemma length_svn_sort__hash: "length (svn_sort__hash ht c) = length ht"
  using mset_svn_sort__hash [of ht c, THEN arg_cong, of size] by (simp add: hash_items_def)

lemma set_svn_sort__hash: "set (svn_sort__hash ht c) = set (hash_items ht)"
  using mset_svn_sort__hash [of ht c, THEN arg_cong, of set_mset] by simp

lemma sorted_sort_insert:
  "sorted (map item_mtime ys)
    \<Longrightarrow> sorted (map item_mtime (sort_insert compare_dirents_by_mtime x ys))"
  by (induction ys) (auto simp: compare_dirents_by_mtime_le set_sort_insert)

lemma sorted_svn_sort__hash:
  "sorted (map item_mtime (svn_sort__hash ht compare_dirents_by_mtime))"
proof -
  have "sorted (map item_mtime (foldr (sort_insert compare_dirents_by_mtime) xs []))" for xs
    by (induction xs) (simp_all add: sorted_sort_insert)
  then show ?thesis by (simp add: svn_sort__hash_def)
qed

lemma sorted_le_last: "sorted (xs :: int list) \<Longrightarrow> x \<in> set xs \<Longrightarrow> x \<le> last xs"
  by (induction xs) auto

lemma svn_sort__hash_last_is_max:
  assumes "ht \<noteq> []" and "x \<in> set (hash_items ht)"
  shows "item_mtime x \<le> item_mtime (last (svn_sort__hash ht compare_dirents_by_mtime))"
proof -
  let ?l = "svn_sort__hash ht compare_dirents_by_mtime"
  have ne: "?l \<noteq> []"
    using assms(1) length_svn_sort__hash [of ht compare_dirents_by_mtime] by auto
  have "item_mtime x \<in> set (map item_mtime ?l)"
    using assms(2) set_svn_sort__hash by auto
  then have "item_mtime x \<le> last (map item_mtime ?l)"
    using sorted_le_last [OF sorted_svn_sort__hash] by blast
  then show ?thesis using ne by (simp add: last_map)
qed

lemma svn_sort__hash_last_index:
  assumes "ht \<noteq> []"
  shows "svn_sort__hash ht c ! (length (svn_sort__hash ht c) - 1) = last (svn_sort__hash ht c)"
  by (metis assms last_conv_nth length_0_conv length_svn_sort__hash)

lemma svn_sort__hash_last_mem:
  assumes "ht \<noteq> []"
  shows "last (svn_sort__hash ht c) \<in> set (hash_items ht)"
proof -
  have "svn_sort__hash ht c \<noteq> []"
    using assms length_svn_sort__hash [of ht c] by auto
  then have "last (svn_sort__hash ht c) \<in> set (svn_sort__hash ht c)" by (rule last_in_set)
  then show ?thesis by (simp add: set_svn_sort__hash)
qed

subsection \<open>The length arithmetic of the name\<close>

lemma strip_long:
  assumes "6 \<le> length k" and "length k < 2 ^ 64"
  shows "apr_pstrndup k (strlen k - 6) = take (length k - 6) k"
proof -
  have "strlen k - 6 = (word_of_nat (length k - 6) :: 64 word)"
    using assms(1) by (simp add: strlen_def of_nat_diff)
  moreover have "unat (word_of_nat (length k - 6) :: 64 word) = length k - 6"
    using assms(2) by (simp add: unat_of_nat)
  ultimately show ?thesis by (simp add: apr_pstrndup_def)
qed

lemma strip_short_len:
  assumes "length k < 6"
  shows "unat (strlen k - 6) = 2 ^ 64 - 6 + length k"
proof -
  have "length k = 0 \<or> length k = 1 \<or> length k = 2 \<or> length k = 3
          \<or> length k = 4 \<or> length k = 5"
    using assms by arith
  then show ?thesis
    by (auto simp: strlen_def unsigned_minus_1_eq_mask mask_eq_exp_minus_1)
qed

lemma strip_short:
  assumes "length k < 6"
  shows "apr_pstrndup k (strlen k - 6) = k"
  using assms strip_short_len [OF assms] by (simp add: apr_pstrndup_def)

lemma name_of_youngest_nonempty:
  assumes "svn_client_shelves_list ext local_abspath ctx = Inr dirents" and "dirents \<noteq> []"
  shows "fst (name_of_youngest ext local_abspath ctx)
           = Inr (apr_pstrndup (key (last (svn_sort__hash dirents compare_dirents_by_mtime)))
                    (strlen (key (last (svn_sort__hash dirents compare_dirents_by_mtime))) - 6))"
proof -
  let ?l = "svn_sort__hash dirents compare_dirents_by_mtime"
  have "?l ! (length ?l - 1) = last ?l"
    using assms(2) by (rule svn_sort__hash_last_index)
  then show ?thesis
    using assms by (simp add: name_of_youngest_def apr_hash_count_def Let_def)
qed

subsection \<open>The shelf lister\<close>

text \<open>
  C5. For every table of shelves the store returns, \<^verbatim>\<open>list_sorted_by_date\<close> returns a
  sequence that holds exactly the entries of the table and whose patch file mtimes are
  non-decreasing from the first element to the last (oldest first). The comparison
  function it sorts with puts \<open>a\<close> before \<open>b\<close> exactly when the mtime of \<open>a\<close> is the
  smaller, and finds them equal exactly when the mtimes are equal.
\<close>

theorem list_sorted_by_date_nondecreasing:
  assumes "svn_client_shelves_list ext local_abspath ctx = Inr shelved_patch_infos"
  shows "\<exists>lst. fst (list_sorted_by_date ext local_abspath ctx) = Inr lst
           \<and> mset lst = mset (hash_items shelved_patch_infos)
           \<and> sorted (map item_mtime lst)
           \<and> (\<forall>a b. (compare_dirents_by_mtime a b < 0 \<longleftrightarrow> item_mtime a < item_mtime b)
                   \<and> (compare_dirents_by_mtime a b = 0 \<longleftrightarrow> item_mtime a = item_mtime b))"
  using assms
  by (simp add: list_sorted_by_date_def mset_svn_sort__hash sorted_svn_sort__hash
        compare_dirents_by_mtime_less compare_dirents_by_mtime_eq)

theorem list_sorted_by_date_nondecreasing_witness:
  "svn_client_shelves_list
      (working_externals [(''b.patch'', shelved_at 200), (''a.patch'', shelved_at 100)])
      ''/wc'' plain_ctx
     = Inr [(''b.patch'', shelved_at 200), (''a.patch'', shelved_at 100)]
   \<and> fst (list_sorted_by_date
            (working_externals [(''b.patch'', shelved_at 200), (''a.patch'', shelved_at 100)])
            ''/wc'' plain_ctx)
     = Inr [\<lparr>key = ''a.patch'', val = shelved_at 100\<rparr>, \<lparr>key = ''b.patch'', val = shelved_at 200\<rparr>]
   \<and> map item_mtime [\<lparr>key = ''a.patch'', val = shelved_at 100\<rparr>, \<lparr>key = ''b.patch'', val = shelved_at 200\<rparr>]
     = [100, 200]"
proof -
  let ?ht = "[(''b.patch'', shelved_at 200), (''a.patch'', shelved_at 100)]"
  have h: "svn_client_shelves_list (working_externals ?ht) ''/wc'' plain_ctx = Inr ?ht"
    by (simp add: working_externals_def)
  have "fst (list_sorted_by_date (working_externals ?ht) ''/wc'' plain_ctx)
          = Inr [\<lparr>key = ''a.patch'', val = shelved_at 100\<rparr>, \<lparr>key = ''b.patch'', val = shelved_at 200\<rparr>]"
    using list_sorted_by_date_nondecreasing [OF h]
    by (simp add: list_sorted_by_date_def working_externals_def svn_sort__hash_def hash_items_def
          compare_dirents_by_mtime_def shelved_at_def word_sless_alt)
  then show ?thesis using h by (simp add: item_mtime_def shelved_at_def)
qed

subsection \<open>The name of the youngest shelf\<close>

text \<open>
  C2. For every non-empty table of shelves, \<^verbatim>\<open>name_of_youngest\<close> returns the name of
  the last element of the sequence sorted ascending by mtime: an entry of the table
  whose mtime no entry exceeds. The name returned is cut from the key of that element
  (the key without its last six characters, see C3 and C6).
\<close>

theorem name_of_youngest_max_mtime:
  assumes "svn_client_shelves_list ext local_abspath ctx = Inr dirents" and "dirents \<noteq> []"
  shows "\<exists>lst youngest.
           fst (list_sorted_by_date ext local_abspath ctx) = Inr lst
           \<and> youngest = last lst
           \<and> youngest \<in> set (hash_items dirents)
           \<and> (\<forall>item \<in> set (hash_items dirents). item_mtime item \<le> item_mtime youngest)
           \<and> fst (name_of_youngest ext local_abspath ctx)
               = Inr (apr_pstrndup (key youngest) (strlen (key youngest) - 6))"
proof -
  let ?lst = "svn_sort__hash dirents compare_dirents_by_mtime"
  have "fst (list_sorted_by_date ext local_abspath ctx) = Inr ?lst"
    using assms(1) by (simp add: list_sorted_by_date_def)
  moreover have "last ?lst \<in> set (hash_items dirents)"
    using assms(2) by (rule svn_sort__hash_last_mem)
  moreover have "\<forall>item \<in> set (hash_items dirents). item_mtime item \<le> item_mtime (last ?lst)"
    using assms(2) by (simp add: svn_sort__hash_last_is_max)
  moreover note name_of_youngest_nonempty [OF assms]
  ultimately show ?thesis by blast
qed

theorem name_of_youngest_max_mtime_witness:
  "svn_client_shelves_list
      (working_externals [(''b.patch'', shelved_at 200), (''a.patch'', shelved_at 100)])
      ''/wc'' plain_ctx
     = Inr [(''b.patch'', shelved_at 200), (''a.patch'', shelved_at 100)]
   \<and> [(''b.patch'', shelved_at 200), (''a.patch'', shelved_at 100)] \<noteq> []
   \<and> (\<exists>lst youngest.
         fst (list_sorted_by_date
                (working_externals [(''b.patch'', shelved_at 200), (''a.patch'', shelved_at 100)])
                ''/wc'' plain_ctx) = Inr lst
         \<and> youngest = last lst
         \<and> youngest = \<lparr>key = ''b.patch'', val = shelved_at 200\<rparr>
         \<and> item_mtime \<lparr>key = ''a.patch'', val = shelved_at 100\<rparr> \<le> item_mtime youngest
         \<and> fst (name_of_youngest
                  (working_externals [(''b.patch'', shelved_at 200), (''a.patch'', shelved_at 100)])
                  ''/wc'' plain_ctx) = Inr ''b'')"
proof -
  let ?ht = "[(''b.patch'', shelved_at 200), (''a.patch'', shelved_at 100)]"
  have h: "svn_client_shelves_list (working_externals ?ht) ''/wc'' plain_ctx = Inr ?ht"
    by (simp add: working_externals_def)
  have ne: "?ht \<noteq> []" by simp
  have srt: "svn_sort__hash ?ht compare_dirents_by_mtime
               = [\<lparr>key = ''a.patch'', val = shelved_at 100\<rparr>, \<lparr>key = ''b.patch'', val = shelved_at 200\<rparr>]"
    by (simp add: svn_sort__hash_def hash_items_def compare_dirents_by_mtime_def shelved_at_def
          word_sless_alt)
  have cut: "apr_pstrndup ''b.patch'' (strlen ''b.patch'' - 6) = ''b''"
    by (simp add: apr_pstrndup_def strlen_def)
  from name_of_youngest_max_mtime [OF h ne] obtain lst youngest where
    a: "fst (list_sorted_by_date (working_externals ?ht) ''/wc'' plain_ctx) = Inr lst"
    and b: "youngest = last lst"
    and c: "\<forall>item \<in> set (hash_items ?ht). item_mtime item \<le> item_mtime youngest"
    and d: "fst (name_of_youngest (working_externals ?ht) ''/wc'' plain_ctx)
              = Inr (apr_pstrndup (key youngest) (strlen (key youngest) - 6))"
    by blast
  have l: "lst = [\<lparr>key = ''a.patch'', val = shelved_at 100\<rparr>, \<lparr>key = ''b.patch'', val = shelved_at 200\<rparr>]"
    using a h srt by (simp add: list_sorted_by_date_def)
  have y: "youngest = \<lparr>key = ''b.patch'', val = shelved_at 200\<rparr>"
    using b l by simp
  have "item_mtime \<lparr>key = ''a.patch'', val = shelved_at 100\<rparr> \<le> item_mtime youngest"
    using c by (simp add: hash_items_def)
  moreover have "fst (name_of_youngest (working_externals ?ht) ''/wc'' plain_ctx) = Inr ''b''"
    using d y cut by simp
  ultimately show ?thesis using h a b y by blast
qed

text \<open>
  C3. For every non-empty table of shelves, when the key of the youngest entry is a name
  followed by the suffix \<^verbatim>\<open>.patch\<close>, \<^verbatim>\<open>name_of_youngest\<close> returns the name without
  the suffix: from the key \<^verbatim>\<open>foo.patch\<close> it returns \<^verbatim>\<open>foo\<close>. (The key is a C string,
  shorter than \<open>2 ^ 64\<close> characters.)
\<close>

theorem name_of_youngest_strips_patch_suffix:
  assumes "svn_client_shelves_list ext local_abspath ctx = Inr dirents" and "dirents \<noteq> []"
    and "key (last (svn_sort__hash dirents compare_dirents_by_mtime)) = name @ ''.patch''"
    and "length name + 6 < 2 ^ 64"
  shows "fst (name_of_youngest ext local_abspath ctx) = Inr name"
proof -
  let ?k = "key (last (svn_sort__hash dirents compare_dirents_by_mtime))"
  have "apr_pstrndup ?k (strlen ?k - 6) = take (length ?k - 6) ?k"
    using assms(3,4) by (intro strip_long) simp_all
  then have "apr_pstrndup ?k (strlen ?k - 6) = name"
    using assms(3) by simp
  then show ?thesis
    using name_of_youngest_nonempty [OF assms(1,2)] by simp
qed

theorem name_of_youngest_strips_patch_suffix_witness:
  "svn_client_shelves_list (working_externals [(''foo.patch'', shelved_at 100)]) ''/wc'' plain_ctx
     = Inr [(''foo.patch'', shelved_at 100)]
   \<and> [(''foo.patch'', shelved_at 100)] \<noteq> []
   \<and> key (last (svn_sort__hash [(''foo.patch'', shelved_at 100)] compare_dirents_by_mtime))
       = ''foo'' @ ''.patch''
   \<and> length ''foo'' + 6 < (2 :: nat) ^ 64
   \<and> fst (name_of_youngest (working_externals [(''foo.patch'', shelved_at 100)]) ''/wc'' plain_ctx)
       = Inr ''foo''"
proof -
  let ?ht = "[(''foo.patch'', shelved_at 100)]"
  have h: "svn_client_shelves_list (working_externals ?ht) ''/wc'' plain_ctx = Inr ?ht"
    by (simp add: working_externals_def)
  have ne: "?ht \<noteq> []" by simp
  have k: "key (last (svn_sort__hash ?ht compare_dirents_by_mtime)) = ''foo'' @ ''.patch''"
    by (simp add: svn_sort__hash_def hash_items_def)
  have len: "length ''foo'' + 6 < (2 :: nat) ^ 64" by simp
  show ?thesis
    using name_of_youngest_strips_patch_suffix [OF h ne k len] h ne k len by blast
qed

text \<open>
  C4. When the store returns its table of shelves, \<^verbatim>\<open>name_of_youngest\<close> fails with the
  error \<^verbatim>\<open>SVN_ERR_CL_INSUFFICIENT_ARGS\<close> and the message "No shelved changes found",
  returning no name, if the table is empty; and it returns a name, hence not that
  error, if the table is not empty.
\<close>

theorem name_of_youngest_no_shelves:
  assumes "svn_client_shelves_list ext local_abspath ctx = Inr dirents"
  shows "(dirents = [] \<longrightarrow>
            fst (name_of_youngest ext local_abspath ctx)
              = Inl \<lparr>apr_err = SVN_ERR_CL_INSUFFICIENT_ARGS,
                      err_message = Some ''No shelved changes found''\<rparr>)
         \<and> (dirents \<noteq> [] \<longrightarrow> (\<exists>name. fst (name_of_youngest ext local_abspath ctx) = Inr name))"
  using assms
  by (simp add: name_of_youngest_def apr_hash_count_def svn_error_create_def gettext_msg_def Let_def)

theorem name_of_youngest_no_shelves_witness:
  "svn_client_shelves_list (working_externals []) ''/wc'' plain_ctx = Inr []
   \<and> fst (name_of_youngest (working_externals []) ''/wc'' plain_ctx)
       = Inl \<lparr>apr_err = SVN_ERR_CL_INSUFFICIENT_ARGS,
               err_message = Some ''No shelved changes found''\<rparr>"
proof -
  have h: "svn_client_shelves_list (working_externals []) ''/wc'' plain_ctx = Inr []"
    by (simp add: working_externals_def)
  show ?thesis using name_of_youngest_no_shelves [OF h] h by simp
qed

text \<open>
  C6. \<^verbatim>\<open>name_of_youngest\<close> copies \<^verbatim>\<open>strlen(key) - 6\<close> characters of the key of the
  youngest entry and checks neither the suffix nor the length of the key. For a key of
  six characters or more, whatever its ending, the name is the key without its last six
  characters. For a key shorter than six characters the unsigned subtraction wraps
  around to \<open>2 ^ 64 - 6 + length\<close>, more than the key is long, and the copy is the
  whole key.
\<close>

theorem name_of_youngest_length_unchecked:
  assumes "svn_client_shelves_list ext local_abspath ctx = Inr dirents" and "dirents \<noteq> []"
    and "k = key (last (svn_sort__hash dirents compare_dirents_by_mtime))"
    and "length k < 2 ^ 64"
  shows "(6 \<le> length k \<longrightarrow>
            fst (name_of_youngest ext local_abspath ctx) = Inr (take (length k - 6) k))
         \<and> (length k < 6 \<longrightarrow>
              unat (strlen k - 6) = 2 ^ 64 - 6 + length k
              \<and> length k < unat (strlen k - 6)
              \<and> fst (name_of_youngest ext local_abspath ctx) = Inr k)"
proof -
  have nm: "fst (name_of_youngest ext local_abspath ctx) = Inr (apr_pstrndup k (strlen k - 6))"
    using name_of_youngest_nonempty [OF assms(1,2)] assms(3) by simp
  have "6 \<le> length k \<longrightarrow> fst (name_of_youngest ext local_abspath ctx) = Inr (take (length k - 6) k)"
    using nm assms(4) by (simp add: strip_long)
  moreover have "length k < 6 \<longrightarrow> unat (strlen k - 6) = 2 ^ 64 - 6 + length k"
    by (simp add: strip_short_len)
  moreover have "length k < 6 \<longrightarrow> length k < unat (strlen k - 6)"
    by (simp add: strip_short_len)
  moreover have "length k < 6 \<longrightarrow> fst (name_of_youngest ext local_abspath ctx) = Inr k"
    using nm by (simp add: strip_short)
  ultimately show ?thesis by blast
qed

theorem name_of_youngest_length_unchecked_witness:
  "svn_client_shelves_list
      (working_externals [(''abc'', shelved_at 200), (''notes.txt'', shelved_at 100)])
      ''/wc'' plain_ctx
     = Inr [(''abc'', shelved_at 200), (''notes.txt'', shelved_at 100)]
   \<and> ''abc'' = key (last (svn_sort__hash [(''abc'', shelved_at 200), (''notes.txt'', shelved_at 100)]
                            compare_dirents_by_mtime))
   \<and> unat (strlen ''abc'' - 6) = 18446744073709551613
   \<and> fst (name_of_youngest
            (working_externals [(''abc'', shelved_at 200), (''notes.txt'', shelved_at 100)])
            ''/wc'' plain_ctx) = Inr ''abc''
   \<and> svn_client_shelves_list (working_externals [(''notes.txt'', shelved_at 100)]) ''/wc'' plain_ctx
       = Inr [(''notes.txt'', shelved_at 100)]
   \<and> fst (name_of_youngest (working_externals [(''notes.txt'', shelved_at 100)]) ''/wc'' plain_ctx)
       = Inr ''not''"
proof -
  let ?ht = "[(''abc'', shelved_at 200), (''notes.txt'', shelved_at 100)]"
  let ?ht2 = "[(''notes.txt'', shelved_at 100)]"
  have h: "svn_client_shelves_list (working_externals ?ht) ''/wc'' plain_ctx = Inr ?ht"
    by (simp add: working_externals_def)
  have h2: "svn_client_shelves_list (working_externals ?ht2) ''/wc'' plain_ctx = Inr ?ht2"
    by (simp add: working_externals_def)
  have ne: "?ht \<noteq> []" and ne2: "?ht2 \<noteq> []" by simp_all
  have k: "''abc'' = key (last (svn_sort__hash ?ht compare_dirents_by_mtime))"
    by (simp add: svn_sort__hash_def hash_items_def compare_dirents_by_mtime_def shelved_at_def
          word_sless_alt)
  have k2: "''notes.txt'' = key (last (svn_sort__hash ?ht2 compare_dirents_by_mtime))"
    by (simp add: svn_sort__hash_def hash_items_def)
  have len: "length ''abc'' < (2 :: nat) ^ 64" and len2: "length ''notes.txt'' < (2 :: nat) ^ 64"
    by simp_all
  show ?thesis
    using name_of_youngest_length_unchecked [OF h ne k len]
      name_of_youngest_length_unchecked [OF h2 ne2 k2 len2] h h2 k
    by simp
qed

subsection \<open>Argument shapes of the commands\<close>


lemma snd_name_of_youngest:
  "snd (name_of_youngest ext local_abspath ctx) = [Call_shelves_list local_abspath ctx]"
  by (simp add: name_of_youngest_def Let_def split: sum.splits)

text \<open>
  C7. Every run of \<^verbatim>\<open>svn_cl__shelve\<close> with the list option set and at least one
  positional argument left fails without a single call into the store (it does nothing
  but return the error). The error is \<^verbatim>\<open>SVN_ERR_CL_ARG_PARSING_ERROR\<close> whenever the
  working copy root was resolved; resolving it is the first step of the command, and a
  failure of that step is returned as it is.
\<close>

theorem shelve_list_rejects_trailing_arguments:
  assumes "list_opt opt_state" and "ind os < argc os"
  shows "(\<exists>err. fst (svn_cl__shelve ext os opt_state ctx) = Some err)
         \<and> snd (svn_cl__shelve ext os opt_state ctx) = []
         \<and> (\<forall>local_abspath. svn_dirent_get_absolute ext '''' = Inr local_abspath \<longrightarrow>
               fst (svn_cl__shelve ext os opt_state ctx)
                 = Some (svn_error_create SVN_ERR_CL_ARG_PARSING_ERROR None))"
  using assms
  by (cases "svn_dirent_get_absolute ext ''''") (simp_all add: svn_cl__shelve_def Let_def)

theorem shelve_list_rejects_trailing_arguments_witness:
  "list_opt (plain_options\<lparr>list_opt := True\<rparr>)
   \<and> ind \<lparr>argv = [''extra''], ind = 0\<rparr> < argc \<lparr>argv = [''extra''], ind = 0\<rparr>
   \<and> svn_cl__shelve (working_externals [(''a.patch'', shelved_at 100)])
        \<lparr>argv = [''extra''], ind = 0\<rparr> (plain_options\<lparr>list_opt := True\<rparr>) plain_ctx
       = (Some (svn_error_create SVN_ERR_CL_ARG_PARSING_ERROR None), [])"
proof -
  have h1: "list_opt (plain_options\<lparr>list_opt := True\<rparr>)" by simp
  have h2: "ind \<lparr>argv = [''extra''], ind = 0\<rparr> < argc \<lparr>argv = [''extra''], ind = 0\<rparr>"
    by (simp add: argc_def)
  have root: "svn_dirent_get_absolute (working_externals [(''a.patch'', shelved_at 100)]) ''''
                = Inr ''/wc''"
    by (simp add: working_externals_def)
  show ?thesis
    using shelve_list_rejects_trailing_arguments
            [OF h1 h2, of "working_externals [(''a.patch'', shelved_at 100)]" plain_ctx]
      root h1 h2
    by (simp add: prod_eq_iff)
qed




text \<open>
  C10. In \<^verbatim>\<open>svn_cl__unshelve\<close> without the list option, when no name argument is given
  and the youngest shelf is found, the notice "unshelving the youngest change, '<name>'"
  is printed whatever the quiet option is. With the quiet option set no confirmation
  line is written at all; with it unset, the confirmation "unshelved '<name>'" is
  written once no argument is left and the store has applied the shelf.
\<close>

theorem unshelve_youngest_notice_ignores_quiet:
  assumes "\<not> list_opt opt_state" and "\<not> ind os < argc os"
    and "svn_dirent_get_absolute ext '''' = Inr local_abspath"
    and "fst (name_of_youngest ext local_abspath ctx) = Inr name"
  shows "Printf ''unshelving the youngest change, '%s'\<newline>'' [Arg_str name]
           \<in> set (snd (svn_cl__unshelve ext os opt_state ctx))
         \<and> (quiet opt_state \<longrightarrow>
               (\<forall>fmt args. Cmdline_printf fmt args \<notin> set (snd (svn_cl__unshelve ext os opt_state ctx))))
         \<and> (\<not> quiet opt_state
              \<and> svn_cl__args_to_target_array_print_reserved ext (drop (ind os) (argv os))
                   (targets opt_state) ctx False = Inr []
              \<and> svn_client_unshelve ext name local_abspath (keep_local opt_state)
                   (dry_run opt_state) ctx = None
              \<longrightarrow> Cmdline_printf ''unshelved '%s'\<newline>'' [Arg_str name]
                    \<in> set (snd (svn_cl__unshelve ext os opt_state ctx)))"
proof -
  obtain evs where n: "name_of_youngest ext local_abspath ctx = (Inr name, evs)"
    and evs: "evs = [Call_shelves_list local_abspath ctx]"
    using assms(4) snd_name_of_youngest [of ext local_abspath ctx]
    by (cases "name_of_youngest ext local_abspath ctx") simp
  show ?thesis
    using assms(1-3) n evs
    by (cases "svn_cl__args_to_target_array_print_reserved ext (drop (ind os) (argv os))
                 (targets opt_state) ctx False")
       (auto simp: svn_cl__unshelve_def Let_def split: option.splits)
qed

theorem unshelve_youngest_notice_ignores_quiet_witness:
  "\<not> list_opt (plain_options\<lparr>quiet := True\<rparr>)
   \<and> \<not> ind \<lparr>argv = [], ind = 0\<rparr> < argc \<lparr>argv = [], ind = 0\<rparr>
   \<and> svn_dirent_get_absolute (working_externals [(''x.patch'', shelved_at 100)]) '''' = Inr ''/wc''
   \<and> fst (name_of_youngest (working_externals [(''x.patch'', shelved_at 100)]) ''/wc'' plain_ctx)
       = Inr ''x''
   \<and> quiet (plain_options\<lparr>quiet := True\<rparr>)
   \<and> Printf ''unshelving the youngest change, '%s'\<newline>'' [Arg_str ''x'']
       \<in> set (snd (svn_cl__unshelve (working_externals [(''x.patch'', shelved_at 100)])
                     \<lparr>argv = [], ind = 0\<rparr> (plain_options\<lparr>quiet := True\<rparr>) plain_ctx))
   \<and> Cmdline_printf ''unshelved '%s'\<newline>'' [Arg_str ''x'']
       \<notin> set (snd (svn_cl__unshelve (working_externals [(''x.patch'', shelved_at 100)])
                     \<lparr>argv = [], ind = 0\<rparr> (plain_options\<lparr>quiet := True\<rparr>) plain_ctx))"
proof -
  let ?ext = "working_externals [(''x.patch'', shelved_at 100)]"
  let ?os = "\<lparr>argv = [], ind = 0\<rparr>"
  let ?opt = "plain_options\<lparr>quiet := True\<rparr>"
  have h1: "\<not> list_opt ?opt" by (simp add: plain_options_def)
  have h2: "\<not> ind ?os < argc ?os" by (simp add: argc_def)
  have h3: "svn_dirent_get_absolute ?ext '''' = Inr ''/wc''" by (simp add: working_externals_def)
  have h4: "fst (name_of_youngest ?ext ''/wc'' plain_ctx) = Inr ''x''"
    by (simp add: name_of_youngest_def working_externals_def apr_hash_count_def
          svn_sort__hash_def hash_items_def apr_pstrndup_def strlen_def Let_def)
  have q: "quiet ?opt" by simp
  show ?thesis
    using unshelve_youngest_notice_ignores_quiet [OF h1 h2 h3 h4] h1 h2 h3 h4 q by blast
qed

subsection \<open>Shelving without a target\<close>

text \<open>
  After \<^verbatim>\<open>svn_opt_push_implicit_dot_target\<close> there is at least one target, so the test
  for no targets that follows it in \<^verbatim>\<open>svn_cl__shelve\<close> never holds.
\<close>

lemma svn_opt_push_implicit_dot_target_nonempty:
  "length (svn_opt_push_implicit_dot_target tgts) \<noteq> 0"
  by (simp add: svn_opt_push_implicit_dot_target_def)

text \<open>
  C1. Shelving with no target path after the name is specified to fail with the
  insufficient-arguments error without calling \<^verbatim>\<open>svn_client_shelve\<close>, and the comment
  in the function says the same ("shelve has no implicit dot-target"). The function
  does otherwise: for \<^verbatim>\<open>svn shelve myfix\<close> in a working copy, without the list and
  remove options, it pushes the implicit target, calls \<^verbatim>\<open>svn_client_shelve\<close> with the
  current directory as the only target, and succeeds.
\<close>

theorem shelve_without_targets_shelves_current_directory:
  "svn_cl__shelve (working_externals []) \<lparr>argv = [''myfix''], ind = 0\<rparr> plain_options plain_ctx
     = (None,
        [Call_shelve ''myfix'' [''''] svn_depth_infinity [] False False plain_ctx,
         Cmdline_printf ''shelved '%s'\<newline>'' [Arg_str ''myfix'']])"
  by (simp add: svn_cl__shelve_def working_externals_def plain_options_def plain_ctx_def
        get_name_def svn_opt_parse_num_args_def argc_def svn_opt_push_implicit_dot_target_def
        Let_def)

subsection \<open>The quiet option\<close>

lemma shelves_list_loop_store_calls:
  "store_calls (shelves_list_loop ext diffstat i lst) = []"
  by (induction lst arbitrary: i) (simp_all add: store_calls_def Let_def)

lemma store_calls_simps:
  "store_calls [] = []"
  "store_calls (e # es) = (if is_store_call e then erase_notify e # store_calls es else store_calls es)"
  by (simp_all add: store_calls_def)

lemma quiet_view_simps:
  "quiet_view [] = []"
  "quiet_view (e # es) = (if quiet_suppresses e then quiet_view es else erase_notify e # quiet_view es)"
  by (simp_all add: quiet_view_def)

lemma shelves_list_loop_quiet:
  "quiet_view (shelves_list_loop ext True i lst) = map erase_notify (shelves_list_loop ext False i lst)"
  by (induction lst arbitrary: i) (simp_all add: quiet_view_simps Let_def)

lemma shelves_list_quiet_run:
  assumes "svn_client_shelves_list ext p (ctx\<lparr>notify_func2 := None\<rparr>) = svn_client_shelves_list ext p ctx"
  shows "fst (shelves_list ext p False (ctx\<lparr>notify_func2 := None\<rparr>)) = fst (shelves_list ext p True ctx)"
    and "store_calls (snd (shelves_list ext p False (ctx\<lparr>notify_func2 := None\<rparr>)))
           = store_calls (snd (shelves_list ext p True ctx))"
    and "quiet_view (snd (shelves_list ext p True ctx))
           = map erase_notify (snd (shelves_list ext p False (ctx\<lparr>notify_func2 := None\<rparr>)))"
  using assms
  by (cases "svn_client_shelves_list ext p ctx";
      simp add: shelves_list_def list_sorted_by_date_def store_calls_simps quiet_view_simps
        shelves_list_loop_store_calls shelves_list_loop_quiet)+

lemma shelve_quiet:
  assumes "quiet_blind ext"
  shows "store_calls (snd (svn_cl__shelve ext os (opt_state\<lparr>quiet := True\<rparr>) ctx))
           = store_calls (snd (svn_cl__shelve ext os (opt_state\<lparr>quiet := False\<rparr>) ctx))
         \<and> quiet_view (snd (svn_cl__shelve ext os (opt_state\<lparr>quiet := False\<rparr>) ctx))
             = map erase_notify (snd (svn_cl__shelve ext os (opt_state\<lparr>quiet := True\<rparr>) ctx))
         \<and> (fst (svn_cl__shelve ext os (opt_state\<lparr>quiet := False\<rparr>) ctx) = None \<longrightarrow>
              fst (svn_cl__shelve ext os (opt_state\<lparr>quiet := True\<rparr>) ctx) = None)
         \<and> (\<forall>err. fst (svn_cl__shelve ext os (opt_state\<lparr>quiet := True\<rparr>) ctx) = Some err \<longrightarrow>
              fst (svn_cl__shelve ext os (opt_state\<lparr>quiet := False\<rparr>) ctx) = Some err)
         \<and> ((\<forall>fmt args. svn_cmdline_printf ext fmt args = None) \<longrightarrow>
              fst (svn_cl__shelve ext os (opt_state\<lparr>quiet := True\<rparr>) ctx)
                = fst (svn_cl__shelve ext os (opt_state\<lparr>quiet := False\<rparr>) ctx))"
proof -
  have a: "svn_client_shelves_list ext p (c\<lparr>notify_func2 := None\<rparr>) = svn_client_shelves_list ext p c" for p c
    using assms by (simp add: quiet_blind_def)
  have b: "svn_client_shelves_delete ext n p d (c\<lparr>notify_func2 := None\<rparr>)
             = svn_client_shelves_delete ext n p d c" for n p d c
    using assms by (simp add: quiet_blind_def)
  have c: "svn_client_shelve ext n ts dp cls k d (c\<lparr>notify_func2 := None\<rparr>)
             = svn_client_shelve ext n ts dp cls k d c" for n ts dp cls k d c
    using assms by (simp add: quiet_blind_def)
  have e: "svn_cl__args_to_target_array_print_reserved ext args known (c\<lparr>notify_func2 := None\<rparr>) keep
             = svn_cl__args_to_target_array_print_reserved ext args known c keep" for args known c keep
    using assms by (simp add: quiet_blind_def)
  have f: "svn_cl__make_log_msg_baton ext (o'\<lparr>quiet := q\<rparr>) cfg = svn_cl__make_log_msg_baton ext o' cfg"
    for o' q cfg
    using assms by (simp add: quiet_blind_def)
  have swap: "c\<lparr>notify_func2 := None, log_msg_baton3 := bt\<rparr>
                = (c\<lparr>log_msg_baton3 := bt\<rparr>)\<lparr>notify_func2 := None\<rparr>" for c :: svn_client_ctx_t and bt
    by (cases c) simp
  have c': "svn_client_shelve ext n ts dp cls k d (c\<lparr>notify_func2 := None, log_msg_baton3 := bt\<rparr>)
             = svn_client_shelve ext n ts dp cls k d (c\<lparr>log_msg_baton3 := bt\<rparr>)" for n ts dp cls k d c bt
    by (simp only: swap c)
  note l = shelves_list_quiet_run [OF a]
  note defs = svn_cl__shelve_def Let_def store_calls_simps quiet_view_simps
  show ?thesis
  proof (cases "svn_dirent_get_absolute ext ''''")
    case (Inl err)
    then show ?thesis by (simp add: defs)
  next
    case root: (Inr p)
    show ?thesis
    proof (cases "list_opt opt_state")
      case True
      then show ?thesis using root by (simp add: defs l)
    next
      case nolist: False
      obtain r os1 where gn: "get_name ext os = (r, os1)" by force
      show ?thesis
      proof (cases r)
        case (Inl err)
        then show ?thesis using root nolist gn by (simp add: defs)
      next
        case nm: (Inr name)
        show ?thesis
        proof (cases "remove opt_state")
          case True
          then show ?thesis
            using root nolist gn nm
            by (cases "svn_client_shelves_delete ext name p (dry_run opt_state) ctx")
               (simp_all add: defs b)
        next
          case norm: False
          show ?thesis
          proof (cases "svn_cl__args_to_target_array_print_reserved ext
                          (drop (ind os1) (argv os1)) (targets opt_state) ctx False")
            case (Inl err)
            then show ?thesis using root nolist gn nm norm by (simp add: defs e)
          next
            case tg: (Inr targets0)
            show ?thesis
            proof (cases "svn_cl__check_targets_are_local_paths ext
                            (svn_opt_push_implicit_dot_target targets0)")
              case (Some err)
              then show ?thesis using root nolist gn nm norm tg by (simp add: defs e)
            next
              case chk: None
              show ?thesis
              proof (cases "svn_cl__eat_peg_revisions ext (svn_opt_push_implicit_dot_target targets0)")
                case (Inl err)
                then show ?thesis using root nolist gn nm norm tg chk by (simp add: defs e)
              next
                case peg: (Inr targets2)
                show ?thesis
                proof (cases "log_msg_func3 ctx")
                  case None
                  then show ?thesis
                    using root nolist gn nm norm tg chk peg
                    by (simp add: defs e c split: option.splits)
                next
                  case lmf: (Some fn)
                  show ?thesis
                  proof (cases "svn_cl__make_log_msg_baton ext opt_state (config ctx)")
                    case (Inl err)
                    then show ?thesis
                      using root nolist gn nm norm tg chk peg lmf by (simp add: defs e f)
                  next
                    case (Inr baton)
                    then show ?thesis
                      using root nolist gn nm norm tg chk peg lmf
                      by (simp add: defs e f c' split: option.splits)
                  qed
                qed
              qed
            qed
          qed
        qed
      qed
    qed
  qed
qed

lemma shelves_list_diffstat:
  shows "fst (shelves_list ext p False ctx) = fst (shelves_list ext p True ctx)"
    and "store_calls (snd (shelves_list ext p False ctx)) = store_calls (snd (shelves_list ext p True ctx))"
    and "quiet_view (snd (shelves_list ext p True ctx)) = map erase_notify (snd (shelves_list ext p False ctx))"
  by (cases "svn_client_shelves_list ext p ctx";
      simp add: shelves_list_def list_sorted_by_date_def store_calls_simps quiet_view_simps
        shelves_list_loop_store_calls shelves_list_loop_quiet)+

lemma unshelve_quiet:
  assumes "quiet_blind ext"
  shows "store_calls (snd (svn_cl__unshelve ext os (opt_state\<lparr>quiet := True\<rparr>) ctx))
           = store_calls (snd (svn_cl__unshelve ext os (opt_state\<lparr>quiet := False\<rparr>) ctx))
         \<and> quiet_view (snd (svn_cl__unshelve ext os (opt_state\<lparr>quiet := False\<rparr>) ctx))
             = map erase_notify (snd (svn_cl__unshelve ext os (opt_state\<lparr>quiet := True\<rparr>) ctx))
         \<and> (fst (svn_cl__unshelve ext os (opt_state\<lparr>quiet := False\<rparr>) ctx) = None \<longrightarrow>
              fst (svn_cl__unshelve ext os (opt_state\<lparr>quiet := True\<rparr>) ctx) = None)
         \<and> (\<forall>err. fst (svn_cl__unshelve ext os (opt_state\<lparr>quiet := True\<rparr>) ctx) = Some err \<longrightarrow>
              fst (svn_cl__unshelve ext os (opt_state\<lparr>quiet := False\<rparr>) ctx) = Some err)
         \<and> ((\<forall>fmt args. svn_cmdline_printf ext fmt args = None) \<longrightarrow>
              fst (svn_cl__unshelve ext os (opt_state\<lparr>quiet := True\<rparr>) ctx)
                = fst (svn_cl__unshelve ext os (opt_state\<lparr>quiet := False\<rparr>) ctx))"
proof -
  have d: "svn_client_unshelve ext n p k dr (c\<lparr>notify_func2 := None\<rparr>)
             = svn_client_unshelve ext n p k dr c" for n p k dr c
    using assms by (simp add: quiet_blind_def)
  note l = shelves_list_diffstat
  note defs = svn_cl__unshelve_def Let_def store_calls_simps quiet_view_simps
  show ?thesis
  proof (cases "svn_dirent_get_absolute ext ''''")
    case (Inl err)
    then show ?thesis by (simp add: defs)
  next
    case root: (Inr p)
    show ?thesis
    proof (cases "list_opt opt_state")
      case True
      then show ?thesis using root by (simp add: defs l)
    next
      case nolist: False
      show ?thesis
      proof (cases "ind os < argc os")
        case given: True
        obtain r os1 where gn: "get_name ext os = (r, os1)" by force
        show ?thesis
        proof (cases r)
          case (Inl err)
          then show ?thesis using root nolist given gn by (simp add: defs)
        next
          case name: (Inr name)
          show ?thesis
          proof (cases "svn_cl__args_to_target_array_print_reserved ext
                          (drop (ind os1) (argv os1)) (targets opt_state) ctx False")
            case (Inl err)
            then show ?thesis using root nolist given gn name by (simp add: defs)
          next
            case (Inr tgts)
            then show ?thesis
              using root nolist given gn name
              by (cases "svn_client_unshelve ext name p (keep_local opt_state)
                           (dry_run opt_state) ctx")
                 (simp_all add: defs d)
          qed
        qed
      next
        case omitted: False
        obtain r where yn: "name_of_youngest ext p ctx = (r, [Call_shelves_list p ctx])"
          using snd_name_of_youngest [of ext p ctx]
          by (cases "name_of_youngest ext p ctx") simp
        show ?thesis
        proof (cases r)
          case (Inl err)
          then show ?thesis using root nolist omitted yn by (simp add: defs)
        next
          case name: (Inr name)
          show ?thesis
          proof (cases "svn_cl__args_to_target_array_print_reserved ext
                          (drop (ind os) (argv os)) (targets opt_state) ctx False")
            case (Inl err)
            then show ?thesis using root nolist omitted yn name by (simp add: defs)
          next
            case (Inr tgts)
            then show ?thesis
              using root nolist omitted yn name
              by (cases "svn_client_unshelve ext name p (keep_local opt_state)
                           (dry_run opt_state) ctx")
                 (simp_all add: defs d)
          qed
        qed
      qed
    qed
  qed
qed

text \<open>
  C9. That the quiet option never changes the outcome does not hold for every run: with
  the output channel closed, \<^verbatim>\<open>svn unshelve x\<close> succeeds with the quiet option and
  fails without it, because only then the confirmation line is written and the error
  of writing it is returned.
\<close>

theorem quiet_changes_outcome_when_output_fails:
  "fst (svn_cl__unshelve (closed_output_externals [(''x.patch'', shelved_at 100)])
          \<lparr>argv = [''x''], ind = 0\<rparr> (plain_options\<lparr>quiet := True\<rparr>) plain_ctx) = None
   \<and> fst (svn_cl__unshelve (closed_output_externals [(''x.patch'', shelved_at 100)])
            \<lparr>argv = [''x''], ind = 0\<rparr> (plain_options\<lparr>quiet := False\<rparr>) plain_ctx)
       = Some (svn_error_create (APR_OTHER_STATUS 32) (Some ''Write error''))"
  by (simp add: svn_cl__unshelve_def closed_output_externals_def working_externals_def
        plain_options_def plain_ctx_def get_name_def svn_opt_parse_num_args_def argc_def Let_def)

text \<open>
  C9, as it holds. With collaborators that do not look at the notification callback or at
  the quiet option, for every argument vector, option state, context and store, in
  \<^verbatim>\<open>svn_cl__shelve\<close> (shelving, deleting, listing) and in \<^verbatim>\<open>svn_cl__unshelve\<close>: the
  run with the quiet option set and the run with it unset make the same calls into the
  store with the same arguments; the events of the quiet run are those of the normal
  run without the confirmation lines and the diffstat output, with the notification
  callback removed; if the normal run succeeds so does the quiet run, and if the quiet
  run fails the normal run fails with the same error; and when every confirmation line
  can be written, both runs return the same result.
\<close>

theorem quiet_changes_only_output:
  assumes "quiet_blind ext"
  shows "(store_calls (snd (svn_cl__shelve ext os (opt_state\<lparr>quiet := True\<rparr>) ctx))
           = store_calls (snd (svn_cl__shelve ext os (opt_state\<lparr>quiet := False\<rparr>) ctx))
         \<and> quiet_view (snd (svn_cl__shelve ext os (opt_state\<lparr>quiet := False\<rparr>) ctx))
             = map erase_notify (snd (svn_cl__shelve ext os (opt_state\<lparr>quiet := True\<rparr>) ctx))
         \<and> (fst (svn_cl__shelve ext os (opt_state\<lparr>quiet := False\<rparr>) ctx) = None \<longrightarrow>
              fst (svn_cl__shelve ext os (opt_state\<lparr>quiet := True\<rparr>) ctx) = None)
         \<and> (\<forall>err. fst (svn_cl__shelve ext os (opt_state\<lparr>quiet := True\<rparr>) ctx) = Some err \<longrightarrow>
              fst (svn_cl__shelve ext os (opt_state\<lparr>quiet := False\<rparr>) ctx) = Some err)
         \<and> ((\<forall>fmt args. svn_cmdline_printf ext fmt args = None) \<longrightarrow>
              fst (svn_cl__shelve ext os (opt_state\<lparr>quiet := True\<rparr>) ctx)
                = fst (svn_cl__shelve ext os (opt_state\<lparr>quiet := False\<rparr>) ctx)))
       \<and> (store_calls (snd (svn_cl__unshelve ext os (opt_state\<lparr>quiet := True\<rparr>) ctx))
           = store_calls (snd (svn_cl__unshelve ext os (opt_state\<lparr>quiet := False\<rparr>) ctx))
         \<and> quiet_view (snd (svn_cl__unshelve ext os (opt_state\<lparr>quiet := False\<rparr>) ctx))
             = map erase_notify (snd (svn_cl__unshelve ext os (opt_state\<lparr>quiet := True\<rparr>) ctx))
         \<and> (fst (svn_cl__unshelve ext os (opt_state\<lparr>quiet := False\<rparr>) ctx) = None \<longrightarrow>
              fst (svn_cl__unshelve ext os (opt_state\<lparr>quiet := True\<rparr>) ctx) = None)
         \<and> (\<forall>err. fst (svn_cl__unshelve ext os (opt_state\<lparr>quiet := True\<rparr>) ctx) = Some err \<longrightarrow>
              fst (svn_cl__unshelve ext os (opt_state\<lparr>quiet := False\<rparr>) ctx) = Some err)
         \<and> ((\<forall>fmt args. svn_cmdline_printf ext fmt args = None) \<longrightarrow>
              fst (svn_cl__unshelve ext os (opt_state\<lparr>quiet := True\<rparr>) ctx)
                = fst (svn_cl__unshelve ext os (opt_state\<lparr>quiet := False\<rparr>) ctx)))"
  by (rule conjI [OF shelve_quiet [OF assms] unshelve_quiet [OF assms]])

theorem quiet_changes_only_output_witness:
  "quiet_blind (working_externals [(''x.patch'', shelved_at 100)])
   \<and> store_calls (snd (svn_cl__shelve (working_externals [(''x.patch'', shelved_at 100)])
                        \<lparr>argv = [''myfix'', ''foo.c''], ind = 0\<rparr>
                        (plain_options\<lparr>quiet := True\<rparr>) plain_ctx))
       = store_calls (snd (svn_cl__shelve (working_externals [(''x.patch'', shelved_at 100)])
                            \<lparr>argv = [''myfix'', ''foo.c''], ind = 0\<rparr>
                            (plain_options\<lparr>quiet := False\<rparr>) plain_ctx))
   \<and> fst (svn_cl__shelve (working_externals [(''x.patch'', shelved_at 100)])
            \<lparr>argv = [''myfix'', ''foo.c''], ind = 0\<rparr> (plain_options\<lparr>quiet := True\<rparr>) plain_ctx)
       = fst (svn_cl__shelve (working_externals [(''x.patch'', shelved_at 100)])
                \<lparr>argv = [''myfix'', ''foo.c''], ind = 0\<rparr> (plain_options\<lparr>quiet := False\<rparr>) plain_ctx)
   \<and> store_calls (snd (svn_cl__unshelve (working_externals [(''x.patch'', shelved_at 100)])
                        \<lparr>argv = [''myfix'', ''foo.c''], ind = 0\<rparr>
                        (plain_options\<lparr>quiet := True\<rparr>) plain_ctx))
       = store_calls (snd (svn_cl__unshelve (working_externals [(''x.patch'', shelved_at 100)])
                            \<lparr>argv = [''myfix'', ''foo.c''], ind = 0\<rparr>
                            (plain_options\<lparr>quiet := False\<rparr>) plain_ctx))
   \<and> fst (svn_cl__unshelve (working_externals [(''x.patch'', shelved_at 100)])
            \<lparr>argv = [''myfix'', ''foo.c''], ind = 0\<rparr> (plain_options\<lparr>quiet := True\<rparr>) plain_ctx)
       = fst (svn_cl__unshelve (working_externals [(''x.patch'', shelved_at 100)])
                \<lparr>argv = [''myfix'', ''foo.c''], ind = 0\<rparr> (plain_options\<lparr>quiet := False\<rparr>) plain_ctx)"
proof -
  let ?ext = "working_externals [(''x.patch'', shelved_at 100)]"
  have h: "quiet_blind ?ext"
    by (simp add: quiet_blind_def working_externals_def)
  have out: "\<forall>fmt args. svn_cmdline_printf ?ext fmt args = None"
    by (simp add: working_externals_def)
  show ?thesis
    using quiet_changes_only_output
            [OF h, of "\<lparr>argv = [''myfix'', ''foo.c''], ind = 0\<rparr>" plain_options plain_ctx]
      h out
    by blast
qed

end
